theory Spec2Isabelle
  imports Main "HOL-Library.Word" "HOL-Library.Signed_Division" "HOL-Library.Multiset"
    "HOL-Library.Char_ord" "HOL-Library.List_Lexorder"
begin

unbundle bit_operations_syntax

section \<open>Data model of noice.c\<close>

text \<open>
  The types of an LP64 POSIX system: \<open>mode_t\<close> is 32 bits wide, \<open>time_t\<close> is a signed
  64-bit integer (read with \<open>sint\<close>), \<open>unsigned long\<close> and \<open>off_t\<close> are 64 bits wide.
\<close>

type_synonym mode_t = "32 word"
type_synonym time_t = "64 word"
type_synonym ulong = "64 word"

text \<open>\<open>struct entry\<close>: the fields \<open>name\<close>, \<open>mode\<close>, \<open>t\<close> and \<open>size\<close>.\<close>

record entry =
  ent_name :: string
  ent_mode :: mode_t
  ent_t :: time_t
  ent_size :: ulong

text \<open>The part of \<open>struct stat\<close> that the program reads.\<close>

record stat =
  st_mode :: mode_t
  st_mtime :: time_t
  st_size :: ulong

text \<open>\<open>enum action\<close>.\<close>

datatype action =
    SEL_QUIT | SEL_BACK | SEL_GOIN | SEL_FLTR | SEL_TYPE | SEL_NEXT | SEL_PREV
  | SEL_PGDN | SEL_PGUP | SEL_HOME | SEL_END | SEL_CD | SEL_CDHOME | SEL_MTIME
  | SEL_REDRAW | SEL_RUN | SEL_RUNARG | SEL_TOGGLEDOT

text \<open>
  What the program writes on the last line of the screen and what it starts:
  \<open>printmsg\<close> with a literal text, \<open>printwarn\<close> (the text of \<open>errno\<close>), the text of
  \<open>regerror\<close> printed by \<open>setfilter\<close>, the prompt of \<open>printprompt\<close>, and \<open>spawn\<close>.
\<close>

datatype event = Printmsg string | Printwarn | Regerror string | Prompt string | Spawn

text \<open>
  The two ways the process ends abnormally: \<open>printerr\<close> leaves with \<open>exit(1)\<close> after
  printing its prefix, and a read of \<open>dents[cur]\<close> outside the array is undefined.
\<close>

datatype error = Exit string | Out_of_bounds

section \<open>Library functions\<close>

text \<open>
  \<open>PATH_MAX\<close> of \<open>limits.h\<close>, and the key codes of \<open>curses.h\<close> read by \<open>readmore\<close>.
\<close>

definition PATH_MAX :: nat where
  "PATH_MAX = 4096"

definition KEY_ENTER :: int where
  "KEY_ENTER = 343"

definition KEY_BACKSPACE :: int where
  "KEY_BACKSPACE = 263"

text \<open>
  \<open>strcmp\<close> compares two strings byte by byte, the bytes read as \<open>unsigned char\<close>.
  The C standard fixes the sign of the result only; the model returns -1, 0 or 1.
\<close>

fun strcmp :: "string \<Rightarrow> string \<Rightarrow> int" where
  "strcmp [] [] = 0"
| "strcmp [] (y # ys) = -1"
| "strcmp (x # xs) [] = 1"
| "strcmp (x # xs) (y # ys) =
     (if x = y then strcmp xs ys
      else if (of_char x :: nat) < of_char y then -1 else 1)"

text \<open>
  \<open>strlcpy(dst, src, size)\<close> and \<open>strlcat(dst, src, size)\<close> of util.h, with the
  semantics of the BSD functions they stand in for: the result holds at most
  \<open>size - 1\<close> characters, and \<open>strlcat\<close> leaves a full buffer alone.
\<close>

definition strlcpy :: "string \<Rightarrow> nat \<Rightarrow> string" where
  "strlcpy src sz = take (sz - 1) src"

definition strlcat :: "string \<Rightarrow> string \<Rightarrow> nat \<Rightarrow> string" where
  "strlcat dst src sz = (if sz \<le> length dst then dst else take (sz - 1) (dst @ src))"

text \<open>
  \<open>dirname(3)\<close>, as POSIX describes it: an empty string gives \<open>.\<close>, a string of
  slashes gives \<open>/\<close>; otherwise trailing slashes are removed, a string without a slash
  gives \<open>.\<close>, and the last component with the slashes before it is removed (\<open>/\<close> when
  nothing remains). Where exactly two slashes remain at the head, POSIX leaves the
  result to the implementation; the model gives \<open>/\<close>.
\<close>

definition is_slash :: "char \<Rightarrow> bool" where
  "is_slash c = (c = CHR ''/'')"

definition drop_trailing :: "(char \<Rightarrow> bool) \<Rightarrow> string \<Rightarrow> string" where
  "drop_trailing P s = rev (dropWhile P (rev s))"

definition dirname :: "string \<Rightarrow> string" where
  "dirname p =
     (let a = drop_trailing is_slash p in
      if p = [] then ''.''
      else if a = [] then ''/''
      else if CHR ''/'' \<notin> set a then ''.''
      else (let b = drop_trailing is_slash (drop_trailing (\<lambda>c. \<not> is_slash c) a)
            in if b = [] then ''/'' else b))"

text \<open>
  \<open>qsort(3)\<close> orders the array by the comparison function. It is modelled by an
  insertion sort that asks the comparison function only; \<open>cmp x y \<le> 0\<close> places
  \<open>x\<close> before \<open>y\<close>.
\<close>

fun qsort_insert :: "('a \<Rightarrow> 'a \<Rightarrow> int) \<Rightarrow> 'a \<Rightarrow> 'a list \<Rightarrow> 'a list" where
  "qsort_insert cmp x [] = [x]"
| "qsort_insert cmp x (y # ys) =
     (if cmp x y \<le> 0 then x # y # ys else y # qsort_insert cmp x ys)"

fun qsort :: "('a \<Rightarrow> 'a \<Rightarrow> int) \<Rightarrow> 'a list \<Rightarrow> 'a list" where
  "qsort cmp [] = []"
| "qsort cmp (x # xs) = qsort_insert cmp x (qsort cmp xs)"

section \<open>The outside world\<close>

text \<open>
  Everything the program asks of the system while it handles one key: the file system
  (\<open>opendir\<close> with the names that \<open>readdir\<close> then yields in order, \<open>lstat\<close>,
  \<open>open\<close>, \<open>fstat\<close>, \<open>closedir\<close>), the regex library (\<open>regcomp\<close> gives a compiled
  pattern or fails with a message; \<open>regexec\<close> says whether a name matches), the
  environment, the terminal (the line read by \<open>readln\<close>, the key read by \<open>readmore\<close>,
  \<open>LINES\<close>) and the \<open>assocs\<close> table of config.h.
\<close>

record 're world =
  opendir :: "string \<Rightarrow> string list option"
  closedir :: "string \<Rightarrow> int"
  lstat :: "string \<Rightarrow> stat option"
  open_fd :: "string \<Rightarrow> bool"
  fstat :: "string \<Rightarrow> stat option"
  regcomp :: "string \<Rightarrow> string + 're"
  regexec :: "'re \<Rightarrow> string \<Rightarrow> bool"
  getenv_HOME :: "string option"
  readln :: "string option"
  getch :: int
  LINES :: int
  assocs :: "(string \<times> string) list"

section \<open>Path resolver\<close>

text \<open>\<open>mkpath\<close>: lines 569-589.\<close>

definition mkpath :: "string \<Rightarrow> string \<Rightarrow> string" where
  "mkpath dir nm =
     (if (case nm of [] \<Rightarrow> False | c # _ \<Rightarrow> c = CHR ''/'') then strlcpy nm PATH_MAX
      else if strcmp dir ''/'' = 0
        then strlcat (strlcpy ''/'' PATH_MAX) nm PATH_MAX
        else strlcat (strlcat (strlcpy dir PATH_MAX) ''/'' PATH_MAX) nm PATH_MAX)"

text \<open>
  \<open>dentfind\<close>: lines 591-613. The array \<open>dents\<close> with its count \<open>n\<close> is the list;
  the loop index is the last argument of \<open>dentfind_loop\<close>.
\<close>

fun dentfind_loop :: "entry list \<Rightarrow> string \<Rightarrow> string \<Rightarrow> int \<Rightarrow> int" where
  "dentfind_loop [] cwd p i = 0"
| "dentfind_loop (e # es) cwd p i =
     (if strcmp (mkpath cwd (ent_name e)) p = 0 then i
      else dentfind_loop es cwd p (i + 1))"

definition dentfind :: "entry list \<Rightarrow> string \<Rightarrow> string option \<Rightarrow> int" where
  "dentfind ds cwd p =
     (case p of None \<Rightarrow> 0 | Some q \<Rightarrow> dentfind_loop ds cwd q 0)"

section \<open>Entry lister\<close>

definition S_IFMT :: mode_t where "S_IFMT = 0xF000"
definition S_IFDIR :: mode_t where "S_IFDIR = 0x4000"
definition S_IFREG :: mode_t where "S_IFREG = 0x8000"
definition S_IFLNK :: mode_t where "S_IFLNK = 0xA000"
definition S_IFSOCK :: mode_t where "S_IFSOCK = 0xC000"
definition S_IFIFO :: mode_t where "S_IFIFO = 0x1000"
definition S_IXUSR :: mode_t where "S_IXUSR = 0x40"

text \<open>\<open>filemode\<close>: lines 457-474. The result 0 is the character with code 0.\<close>

definition filemode :: "mode_t \<Rightarrow> char" where
  "filemode m =
     (if m AND S_IFMT = S_IFDIR then CHR ''/''
      else if m AND S_IFMT = S_IFLNK then CHR ''@''
      else if m AND S_IFMT = S_IFSOCK then CHR ''=''
      else if m AND S_IFMT = S_IFIFO then CHR ''|''
      else if m AND S_IXUSR \<noteq> 0 then CHR ''*''
      else CHR 0x00)"

text \<open>\<open>canopendir\<close>: lines 445-455.\<close>

definition canopendir :: "'re world \<Rightarrow> string \<Rightarrow> bool" where
  "canopendir w p = (opendir w p \<noteq> None)"

text \<open>\<open>visible\<close>: lines 258-262.\<close>

definition visible :: "'re world \<Rightarrow> 're \<Rightarrow> string \<Rightarrow> bool" where
  "visible w re file = regexec w re file"

text \<open>
  \<open>dentfill\<close>: lines 513-557. The loop runs over the names that \<open>readdir\<close> yields;
  it carries the entries filled so far and \<open>totalsize\<close>. A failing \<open>lstat\<close> or
  \<open>closedir\<close> ends the process through \<open>printerr\<close>. The result is the filled array
  (its length is the returned count) and \<open>totalsize\<close>.
\<close>

fun dentfill_loop ::
  "'re world \<Rightarrow> string \<Rightarrow> ('re \<Rightarrow> string \<Rightarrow> bool) \<Rightarrow> 're \<Rightarrow> string list
     \<Rightarrow> entry list \<Rightarrow> ulong \<Rightarrow> error + entry list \<times> ulong" where
  "dentfill_loop w dir flt re [] ds tot = Inr (ds, tot)"
| "dentfill_loop w dir flt re (d # rest) ds tot =
     (if strcmp d ''.'' = 0 \<or> strcmp d ''..'' = 0 then dentfill_loop w dir flt re rest ds tot
      else if \<not> flt re d then dentfill_loop w dir flt re rest ds tot
      else (case lstat w (mkpath dir d) of
              None \<Rightarrow> Inl (Exit ''lstat'')
            | Some sb \<Rightarrow>
                dentfill_loop w dir flt re rest
                  (ds @ [\<lparr>ent_name = d, ent_mode = st_mode sb, ent_t = st_mtime sb,
                          ent_size = st_size sb\<rparr>])
                  (if filemode (st_mode sb) = CHR 0x00 \<or> filemode (st_mode sb) = CHR ''*''
                   then tot + st_size sb else tot)))"

definition dentfill ::
  "'re world \<Rightarrow> string \<Rightarrow> ('re \<Rightarrow> string \<Rightarrow> bool) \<Rightarrow> 're \<Rightarrow> error + entry list \<times> ulong" where
  "dentfill w dir flt re =
     (case opendir w dir of
        None \<Rightarrow> Inr ([], 0)
      | Some names \<Rightarrow>
          (case dentfill_loop w dir flt re names [] 0 of
             Inl e \<Rightarrow> Inl e
           | Inr r \<Rightarrow> if closedir w dir = -1 then Inl (Exit ''closedir'') else Inr r))"

section \<open>Sorting\<close>

text \<open>
  \<open>entrycmp\<close>: lines 264-275. Under \<open>mtimeorder\<close> the difference of two \<open>time_t\<close>
  values is returned as an \<open>int\<close>: its low 32 bits, read as a signed number.
\<close>

definition entrycmp :: "bool \<Rightarrow> entry \<Rightarrow> entry \<Rightarrow> int" where
  "entrycmp mtimeorder a b =
     (if mtimeorder then sint (ucast (ent_t b - ent_t a) :: 32 word)
      else strcmp (ent_name a) (ent_name b))"

section \<open>Navigation state\<close>

text \<open>
  The global context (lines 87-93) and the locals of \<open>browse\<close> that live across
  iterations. The array \<open>dents\<close> and its count \<open>n\<close> are one list; \<open>oldpath\<close> and
  \<open>tmp\<close> are \<open>None\<close> when the pointer is \<open>NULL\<close>; \<open>tmp\<close> is followed in typing mode
  only (outside of it the variable is dead); \<open>out\<close> collects what is printed on the
  last line. The idle counter and the drawing of the screen are left out.
\<close>

record state =
  dents :: "entry list"
  cur :: int
  path :: string
  oldpath :: "string option"
  fltr :: string
  totalsize :: ulong
  mtimeorder :: bool
  nowtyping :: bool
  tmp :: "string option"
  out :: "event list"

definition dents_n :: "state \<Rightarrow> int" where
  "dents_n s = int (length (dents s))"

definition printmsg :: "string \<Rightarrow> state \<Rightarrow> state" where
  "printmsg msg s = s\<lparr>out := out s @ [Printmsg msg]\<rparr>"

definition printwarn :: "state \<Rightarrow> state" where
  "printwarn s = s\<lparr>out := out s @ [Printwarn]\<rparr>"

definition clearprompt :: "state \<Rightarrow> state" where
  "clearprompt s = printmsg [] s"

definition printprompt :: "string \<Rightarrow> state \<Rightarrow> state" where
  "printprompt str s = (let s1 = clearprompt s in s1\<lparr>out := out s1 @ [Prompt str]\<rparr>)"

text \<open>\<open>setfilter\<close>: lines 241-256. \<open>None\<close> is a result other than 0.\<close>

definition setfilter :: "'re world \<Rightarrow> string \<Rightarrow> state \<Rightarrow> 're option \<times> state" where
  "setfilter w f s =
     (case regcomp w f of
        Inl errbuf \<Rightarrow> (None, s\<lparr>out := out s @ [Regerror errbuf]\<rparr>)
      | Inr re \<Rightarrow> (Some re, s))"

text \<open>\<open>populate\<close>: lines 615-645. The result is the returned \<open>int\<close> and the new state.\<close>

definition populate :: "'re world \<Rightarrow> state \<Rightarrow> error + int \<times> state" where
  "populate w s =
     (if \<not> canopendir w (path s) then Inr (-1, s)
      else (case setfilter w (fltr s) s of
              (None, s1) \<Rightarrow> Inr (-1, s1)
            | (Some re, s1) \<Rightarrow>
                (case dentfill w (path s1) (visible w) re of
                   Inl e \<Rightarrow> Inl e
                 | Inr (ds, tot) \<Rightarrow>
                     (let sorted_ds = qsort (entrycmp (mtimeorder s1)) ds
                      in Inr (0, s1\<lparr>dents := sorted_ds, totalsize := tot,
                                     cur := dentfind sorted_ds (path s1) (oldpath s1),
                                     oldpath := None\<rparr>)))))"

text \<open>
  \<open>redraw\<close>: lines 647-690. Its one effect on the state is the loop that cuts the
  slashes at the end of \<open>path\<close>, keeping the first character.
\<close>

definition strip_slashes :: "string \<Rightarrow> string" where
  "strip_slashes p = (case p of [] \<Rightarrow> [] | c # cs \<Rightarrow> c # drop_trailing is_slash cs)"

definition redraw :: "state \<Rightarrow> state" where
  "redraw s = s\<lparr>path := strip_slashes (path s)\<rparr>"

text \<open>\<open>openwith\<close>: lines 220-239, over the \<open>assocs\<close> table.\<close>

fun openwith_loop :: "'re world \<Rightarrow> (string \<times> string) list \<Rightarrow> string \<Rightarrow> string option" where
  "openwith_loop w [] file = None"
| "openwith_loop w ((rx, bin) # rest) file =
     (case regcomp w rx of
        Inl _ \<Rightarrow> openwith_loop w rest file
      | Inr re \<Rightarrow> if regexec w re file then Some bin else openwith_loop w rest file)"

definition openwith :: "'re world \<Rightarrow> string \<Rightarrow> string option" where
  "openwith w file = openwith_loop w (assocs w) file"

text \<open>
  \<open>readmore\<close>: lines 393-443. The result is the returned \<open>int\<close> and the new string;
  \<open>l\<close> is the text of \<open>ln\<close> (empty for \<open>NULL\<close>) and \<open>i\<close> its length. The codes 13
  and 8 are the carriage return and \<open>CONTROL('H')\<close>. Any other key is stored as a
  \<open>char\<close>, and storing the character 0 ends the string where it was.
\<close>

definition readmore :: "'re world \<Rightarrow> string option \<Rightarrow> int \<times> string option" where
  "readmore w ln =
     (let l = (case ln of None \<Rightarrow> [] | Some x \<Rightarrow> x); i = int (length l); c = getch w in
      if c = KEY_ENTER \<or> c = 13 then (1, ln)
      else if c = KEY_BACKSPACE \<or> c = 8 then
        (if i - 1 > 0 then (0, Some (take (nat (i - 1)) l)) else (0, None))
      else (0, Some (l @ (if char_of c = CHR 0x00 then [] else [char_of c]))))"

section \<open>Navigation state machine\<close>

text \<open>
  Where control goes once an action of the \<open>switch\<close> in \<open>browse\<close> is done: to the label
  \<open>begin\<close>, to the label \<open>nochange\<close>, to the label \<open>moretyping\<close> for one more key, out
  of the \<open>switch\<close> (\<open>break\<close>), to the next iteration (\<open>continue\<close>), out of \<open>browse\<close>
  (\<open>return\<close>); \<open>Fault\<close> is a read of \<open>dents[cur]\<close> outside the array.
\<close>

datatype ctl = Goto_begin | Goto_nochange | Goto_moretyping | Break | Continue | Return | Fault

text \<open>The macro \<open>MIN\<close> of line 38.\<close>

definition MIN_m :: "int \<Rightarrow> int \<Rightarrow> int" where
  "MIN_m x y = (if x < y then x else y)"

text \<open>The entry \<open>dents[cur]\<close>, when \<open>cur\<close> is inside the array.\<close>

definition dent_cur :: "state \<Rightarrow> entry option" where
  "dent_cur s =
     (if 0 \<le> cur s \<and> cur s < dents_n s then Some (dents s ! nat (cur s)) else None)"

text \<open>
  The lines under the comment "Save current" (818-819, 851-852, 921-922, 926-927),
  followed by \<open>goto begin\<close>.
\<close>

definition save_current :: "state \<Rightarrow> ctl \<times> state" where
  "save_current s =
     (if dents_n s > 0 then
        (case dent_cur s of
           None \<Rightarrow> (Fault, s)
         | Some e \<Rightarrow> (Goto_begin, s\<lparr>oldpath := Some (mkpath (path s) (ent_name e))\<rparr>))
      else (Goto_begin, s))"

text \<open>The label \<open>moretyping\<close>: lines 824-855.\<close>

definition moretyping :: "'re world \<Rightarrow> string \<Rightarrow> state \<Rightarrow> ctl \<times> state" where
  "moretyping w ifilter s =
     (let s1 = printprompt ''type: '' s;
          (r, ln) = readmore w (tmp s1);
          s2 = s1\<lparr>tmp := ln, nowtyping := (if r = 1 then False else nowtyping s1)\<rparr>;
          (bad, s3) = (case ln of
                         None \<Rightarrow> (False, s2)
                       | Some l \<Rightarrow> (case setfilter w l s2 of (re, s') \<Rightarrow> (re = None, s'))) in
      if bad then
        (if nowtyping s3 then (Goto_moretyping, s3) else (Goto_nochange, s3\<lparr>tmp := None\<rparr>))
      else
        (let s4 = s3\<lparr>fltr := (case ln of None \<Rightarrow> ifilter | Some l \<Rightarrow> l)\<rparr>;
             (c, s5) = save_current s4
         in (c, if nowtyping s5 then s5 else s5\<lparr>tmp := None\<rparr>)))"

text \<open>The \<open>switch\<close> on the action: lines 722-951.\<close>

fun dispatch :: "'re world \<Rightarrow> string \<Rightarrow> action \<Rightarrow> state \<Rightarrow> ctl \<times> state" where
  "dispatch w ifilter SEL_QUIT s = (Return, s)"
| "dispatch w ifilter SEL_BACK s =
     (if strcmp (path s) ''/'' = 0 \<or> strcmp (path s) ''.'' = 0 \<or> CHR ''/'' \<notin> set (path s)
      then (Goto_nochange, s)
      else (let dir = dirname (path s) in
            if \<not> canopendir w dir then (Goto_nochange, printwarn s)
            else (Goto_begin, s\<lparr>oldpath := Some (path s), path := dir, fltr := ifilter\<rparr>)))"
| "dispatch w ifilter SEL_GOIN s =
     (if dents_n s = 0 then (Goto_nochange, s)
      else (case dent_cur s of
              None \<Rightarrow> (Fault, s)
            | Some e \<Rightarrow>
                (let newpath = mkpath (path s) (ent_name e) in
                 if \<not> open_fd w newpath then (Goto_nochange, printwarn s)
                 else (case fstat w newpath of
                         None \<Rightarrow> (Goto_nochange, printwarn s)
                       | Some sb \<Rightarrow>
                           if st_mode sb AND S_IFMT = S_IFDIR then
                             (if \<not> canopendir w newpath then (Goto_nochange, printwarn s)
                              else (Goto_begin, s\<lparr>path := newpath, fltr := ifilter\<rparr>))
                           else if st_mode sb AND S_IFMT = S_IFREG then
                             (case openwith w newpath of
                                None \<Rightarrow> (Goto_nochange, printmsg ''No association'' s)
                              | Some bin \<Rightarrow> (Continue, s\<lparr>out := out s @ [Spawn]\<rparr>))
                           else (Goto_nochange, printmsg ''Unsupported file'' s)))))"
| "dispatch w ifilter SEL_FLTR s =
     (let s1 = printprompt ''filter: '' s;
          f = (case readln w of None \<Rightarrow> ifilter | Some l \<Rightarrow> l) in
      case setfilter w f s1 of
        (None, s2) \<Rightarrow> (Goto_nochange, s2)
      | (Some re, s2) \<Rightarrow> save_current (s2\<lparr>fltr := f\<rparr>))"
| "dispatch w ifilter SEL_TYPE s = moretyping w ifilter (s\<lparr>nowtyping := True, tmp := None\<rparr>)"
| "dispatch w ifilter SEL_NEXT s =
     (Break, if cur s < dents_n s - 1 then s\<lparr>cur := cur s + 1\<rparr> else s)"
| "dispatch w ifilter SEL_PREV s =
     (Break, if cur s > 0 then s\<lparr>cur := cur s - 1\<rparr> else s)"
| "dispatch w ifilter SEL_PGDN s =
     (Break, if cur s < dents_n s - 1
             then s\<lparr>cur := cur s + MIN_m ((LINES w - 4) sdiv 2) (dents_n s - 1 - cur s)\<rparr> else s)"
| "dispatch w ifilter SEL_PGUP s =
     (Break, if cur s > 0 then s\<lparr>cur := cur s - MIN_m ((LINES w - 4) sdiv 2) (cur s)\<rparr> else s)"
| "dispatch w ifilter SEL_HOME s = (Break, s\<lparr>cur := 0\<rparr>)"
| "dispatch w ifilter SEL_END s = (Break, s\<lparr>cur := dents_n s - 1\<rparr>)"
| "dispatch w ifilter SEL_CD s =
     (let s1 = printprompt ''chdir: '' s in
      case readln w of
        None \<Rightarrow> (Goto_nochange, clearprompt s1)
      | Some l \<Rightarrow>
          (let newpath = mkpath (path s1) l in
           if \<not> canopendir w newpath then (Goto_nochange, printwarn s1)
           else (Goto_begin, s1\<lparr>path := newpath, fltr := ifilter\<rparr>)))"
| "dispatch w ifilter SEL_CDHOME s =
     (case getenv_HOME w of
        None \<Rightarrow> (Goto_nochange, clearprompt s)
      | Some home \<Rightarrow>
          (let newpath = mkpath (path s) home in
           if \<not> canopendir w newpath then (Goto_nochange, printwarn s)
           else (Goto_begin, s\<lparr>oldpath := Some (path s), path := newpath, fltr := ifilter\<rparr>)))"
| "dispatch w ifilter SEL_MTIME s = save_current (s\<lparr>mtimeorder := \<not> mtimeorder s\<rparr>)"
| "dispatch w ifilter SEL_REDRAW s = save_current s"
| "dispatch w ifilter SEL_RUN s = (Break, s\<lparr>out := out s @ [Spawn]\<rparr>)"
| "dispatch w ifilter SEL_RUNARG s =
     (case dent_cur s of
        None \<Rightarrow> (Fault, s)
      | Some e \<Rightarrow> (Break, s\<lparr>out := out s @ [Spawn]\<rparr>))"
| "dispatch w ifilter SEL_TOGGLEDOT s =
     (if strcmp (fltr s) ifilter \<noteq> 0 then (Goto_begin, s\<lparr>fltr := ifilter\<rparr>)
      else (Goto_begin, s\<lparr>fltr := ''.''\<rparr>))"

text \<open>
  The label \<open>begin\<close> (lines 705-716): \<open>populate\<close>, then either the warning and the
  label \<open>nochange\<close>, or the \<open>redraw\<close> at the head of the loop.
\<close>

definition goto_begin :: "'re world \<Rightarrow> state \<Rightarrow> error + state" where
  "goto_begin w s =
     (case populate w s of
        Inl e \<Rightarrow> Inl e
      | Inr (r, s1) \<Rightarrow>
          if r = -1 \<and> \<not> nowtyping s1 then Inr (printwarn s1) else Inr (redraw s1))"

text \<open>
  One pass from a read of the keyboard to the next. In typing mode the key goes to
  \<open>readmore\<close>; otherwise \<open>sel\<close> is the result of \<open>nextsel\<close> (\<open>None\<close> for 0, a key
  without binding). \<open>Done\<close> is the return from \<open>browse\<close>.
\<close>

datatype outcome = Next state | Done | Err error

definition browse_iter :: "'re world \<Rightarrow> string \<Rightarrow> action option \<Rightarrow> state \<Rightarrow> outcome" where
  "browse_iter w ifilter sel s =
     (case (if nowtyping s then moretyping w ifilter s
            else (case sel of None \<Rightarrow> (Break, s) | Some a \<Rightarrow> dispatch w ifilter a s)) of
        (Goto_begin, s1) \<Rightarrow> (case goto_begin w s1 of Inl e \<Rightarrow> Err e | Inr s2 \<Rightarrow> Next s2)
      | (Goto_nochange, s1) \<Rightarrow> Next s1
      | (Goto_moretyping, s1) \<Rightarrow> Next s1
      | (Break, s1) \<Rightarrow> Next (redraw s1)
      | (Continue, s1) \<Rightarrow> Next (redraw s1)
      | (Return, s1) \<Rightarrow> Done
      | (Fault, s1) \<Rightarrow> Err Out_of_bounds)"

text \<open>
  The entry of \<open>browse\<close> (lines 700-707), up to the first read of the keyboard. The
  globals start at zero; \<open>mtimeorder\<close> starts with the value that config.h gives it.
\<close>

definition browse_start :: "'re world \<Rightarrow> bool \<Rightarrow> string \<Rightarrow> string \<Rightarrow> error + state" where
  "browse_start w mtimeorder0 ipath ifilter =
     goto_begin w \<lparr>dents = [], cur = 0, path = ipath, oldpath = None, fltr = ifilter,
                   totalsize = 0, mtimeorder = mtimeorder0, nowtyping = False, tmp = None,
                   out = []\<rparr>"

text \<open>A filter string compiles when \<open>regcomp\<close> accepts it.\<close>

definition compiles :: "'re world \<Rightarrow> string \<Rightarrow> bool" where
  "compiles w f = (case regcomp w f of Inl _ \<Rightarrow> False | Inr _ \<Rightarrow> True)"

section \<open>A small file system\<close>

text \<open>
  A world to run the definitions in: the directory \<open>/tmp\<close> holds \<open>a.txt\<close>, \<open>b.log\<close>
  (executable, as old as \<open>a.txt\<close>), \<open>.hidden\<close> and the directory \<open>sub\<close>. Its regex
  library knows the two default filters, \<open>.\<close> and \<open>^[^.]\<close>, and the filter \<open>^s\<close>,
  and rejects \<open>(\<close>.
\<close>

definition ex_opendir :: "string \<Rightarrow> string list option" where
  "ex_opendir p =
     (if p = ''/'' then Some [''.'', ''..'', ''tmp'', ''home'']
      else if p = ''/tmp'' then Some [''.'', ''..'', ''b.log'', ''.hidden'', ''sub'', ''a.txt'']
      else if p = ''/tmp/sub'' then Some [''.'', ''..'', ''x'']
      else if p = ''/home'' then Some [''.'', ''..'']
      else None)"

definition ex_lstat :: "string \<Rightarrow> stat option" where
  "ex_lstat p =
     (if p = ''/tmp/a.txt'' then Some \<lparr>st_mode = 0x81A4, st_mtime = 100, st_size = 10\<rparr>
      else if p = ''/tmp/b.log'' then Some \<lparr>st_mode = 0x81ED, st_mtime = 100, st_size = 20\<rparr>
      else if p = ''/tmp/.hidden'' then Some \<lparr>st_mode = 0x81A4, st_mtime = 300, st_size = 5\<rparr>
      else if p = ''/tmp/sub'' then Some \<lparr>st_mode = 0x41ED, st_mtime = 200, st_size = 4096\<rparr>
      else if p = ''/tmp/sub/x'' then Some \<lparr>st_mode = 0x81A4, st_mtime = 50, st_size = 1\<rparr>
      else if p = ''/tmp'' \<or> p = ''/home'' \<or> p = ''/''
        then Some \<lparr>st_mode = 0x41ED, st_mtime = 400, st_size = 4096\<rparr>
      else None)"

definition ex_regcomp :: "string \<Rightarrow> string + string" where
  "ex_regcomp f = (if f = ''('' then Inl ''parentheses not balanced'' else Inr f)"

definition ex_regexec :: "string \<Rightarrow> string \<Rightarrow> bool" where
  "ex_regexec re nm =
     (if re = ''.'' then nm \<noteq> []
      else if re = ''^[^.]'' then (case nm of [] \<Rightarrow> False | c # _ \<Rightarrow> c \<noteq> CHR ''.'')
      else if re = ''^s'' then (case nm of [] \<Rightarrow> False | c # _ \<Rightarrow> c = CHR ''s'')
      else False)"

definition ex_world :: "string world" where
  "ex_world =
     \<lparr>opendir = ex_opendir, closedir = (\<lambda>_. 0), lstat = ex_lstat,
      open_fd = (\<lambda>p. ex_lstat p \<noteq> None), fstat = ex_lstat,
      regcomp = ex_regcomp, regexec = ex_regexec, getenv_HOME = Some ''/home'',
      readln = None, getch = 13, LINES = 24, assocs = []\<rparr>"

definition ex_a :: entry where
  "ex_a = \<lparr>ent_name = ''a.txt'', ent_mode = 0x81A4, ent_t = 100, ent_size = 10\<rparr>"

definition ex_b :: entry where
  "ex_b = \<lparr>ent_name = ''b.log'', ent_mode = 0x81ED, ent_t = 100, ent_size = 20\<rparr>"

definition ex_sub :: entry where
  "ex_sub = \<lparr>ent_name = ''sub'', ent_mode = 0x41ED, ent_t = 200, ent_size = 4096\<rparr>"

text \<open>The state of \<open>browse\<close> in \<open>/tmp\<close> under the filter \<open>^[^.]\<close>, before any key.\<close>

definition ex_state :: state where
  "ex_state =
     \<lparr>dents = [ex_a, ex_b, ex_sub], cur = 0, path = ''/tmp'', oldpath = None,
      fltr = ''^[^.]'', totalsize = 30, mtimeorder = False, nowtyping = False,
      tmp = None, out = []\<rparr>"

definition ex_hidden :: entry where
  "ex_hidden = \<lparr>ent_name = ''.hidden'', ent_mode = 0x81A4, ent_t = 300, ent_size = 5\<rparr>"

text \<open>The state in \<open>/tmp\<close> once the dotfiles are shown (filter \<open>.\<close>).\<close>

definition ex_all :: state where
  "ex_all =
     \<lparr>dents = [ex_hidden, ex_a, ex_b, ex_sub], cur = 0, path = ''/tmp'', oldpath = None,
      fltr = ''.'', totalsize = 35, mtimeorder = False, nowtyping = False,
      tmp = None, out = []\<rparr>"

text \<open>The state in \<open>/tmp\<close> once the filter \<open>^s\<close> is set at the prompt.\<close>

definition ex_custom :: state where
  "ex_custom =
     \<lparr>dents = [ex_sub], cur = 0, path = ''/tmp'', oldpath = None,
      fltr = ''^s'', totalsize = 0, mtimeorder = False, nowtyping = False,
      tmp = None, out = [Printmsg [], Prompt ''filter: '']\<rparr>"

text \<open>
  The same world while \<open>/tmp\<close> cannot be opened, and the state that \<open>SEL_REDRAW\<close>
  leaves there with the cursor on \<open>b.log\<close>: \<open>populate\<close> has returned -1 and the
  history slot still holds the path saved for it.
\<close>

definition ex_locked :: "string world" where
  "ex_locked = ex_world\<lparr>opendir := (\<lambda>p. if p = ''/tmp'' then None else ex_opendir p)\<rparr>"

definition ex_stale :: state where
  "ex_stale =
     \<lparr>dents = [ex_a, ex_b, ex_sub], cur = 1, path = ''/tmp'', oldpath = Some ''/tmp/b.log'',
      fltr = ''^[^.]'', totalsize = 30, mtimeorder = False, nowtyping = False,
      tmp = None, out = [Printwarn]\<rparr>"

text \<open>The state of \<open>browse\<close> in the empty directory \<open>/home\<close>, before any key.\<close>

definition ex_home :: state where
  "ex_home =
     \<lparr>dents = [], cur = 0, path = ''/home'', oldpath = None,
      fltr = ''^[^.]'', totalsize = 0, mtimeorder = False, nowtyping = False,
      tmp = None, out = []\<rparr>"

section \<open>Facts about the library functions\<close>

lemma strcmp_eq_0: "strcmp a b = 0 \<longleftrightarrow> a = b"
  by (induction a b rule: strcmp.induct) auto

lemma length_qsort_insert: "length (qsort_insert cmp x xs) = Suc (length xs)"
  by (induction xs) auto

lemma length_qsort: "length (qsort cmp xs) = length xs"
  by (induction xs) (auto simp: length_qsort_insert)




text \<open>How the definitions unfold on the small file system.\<close>

lemmas ex_defs = ex_world_def ex_opendir_def ex_lstat_def ex_regcomp_def ex_regexec_def
  ex_state_def ex_a_def ex_b_def ex_sub_def ex_hidden_def ex_all_def ex_home_def
  ex_custom_def ex_locked_def ex_stale_def

lemmas eval_defs = canopendir_def setfilter_def dentfill_def visible_def entrycmp_def
  dentfind_def redraw_def strip_slashes_def drop_trailing_def is_slash_def mkpath_def
  strlcpy_def strlcat_def PATH_MAX_def filemode_def S_IFMT_def S_IFDIR_def S_IFLNK_def
  S_IFSOCK_def S_IFIFO_def S_IXUSR_def S_IFREG_def

section \<open>The lookup \<open>dentfind\<close>\<close>

lemma dentfind_loop_none:
  "\<forall>e \<in> set ds. mkpath cwd (ent_name e) \<noteq> p \<Longrightarrow> dentfind_loop ds cwd p i = 0"
  by (induction ds arbitrary: i) (auto simp: strcmp_eq_0)

lemma dentfind_loop_first:
  "\<exists>e \<in> set ds. mkpath cwd (ent_name e) = p \<Longrightarrow>
   \<exists>k < length ds. dentfind_loop ds cwd p i = i + int k \<and>
      mkpath cwd (ent_name (ds ! k)) = p \<and>
      (\<forall>j < k. mkpath cwd (ent_name (ds ! j)) \<noteq> p)"
proof (induction ds arbitrary: i)
  case Nil
  then show ?case by simp
next
  case (Cons e es)
  show ?case
  proof (cases "mkpath cwd (ent_name e) = p")
    case True
    then have "dentfind_loop (e # es) cwd p i = i + int 0 \<and>
      mkpath cwd (ent_name ((e # es) ! 0)) = p \<and>
      (\<forall>j < 0. mkpath cwd (ent_name ((e # es) ! j)) \<noteq> p)"
      by (simp add: strcmp_eq_0)
    then show ?thesis by blast
  next
    case False
    with Cons.prems have "\<exists>e \<in> set es. mkpath cwd (ent_name e) = p" by auto
    from Cons.IH[OF this, of "i + 1"] obtain k where k: "k < length es"
      "dentfind_loop es cwd p (i + 1) = i + 1 + int k"
      "mkpath cwd (ent_name (es ! k)) = p"
      "\<forall>j < k. mkpath cwd (ent_name (es ! j)) \<noteq> p" by blast
    have "\<forall>j < Suc k. mkpath cwd (ent_name ((e # es) ! j)) \<noteq> p"
    proof (intro allI impI)
      fix j assume "j < Suc k"
      then show "mkpath cwd (ent_name ((e # es) ! j)) \<noteq> p"
        using False k(4) by (cases j) auto
    qed
    with k False have "Suc k < length (e # es) \<and>
      dentfind_loop (e # es) cwd p i = i + int (Suc k) \<and>
      mkpath cwd (ent_name ((e # es) ! Suc k)) = p \<and>
      (\<forall>j < Suc k. mkpath cwd (ent_name ((e # es) ! j)) \<noteq> p)"
      by (simp add: strcmp_eq_0)
    then show ?thesis by blast
  qed
qed

lemma dentfind_range:
  "0 \<le> dentfind ds cwd q \<and> (ds \<noteq> [] \<longrightarrow> dentfind ds cwd q < int (length ds))
   \<and> (ds = [] \<longrightarrow> dentfind ds cwd q = 0)"
proof (cases q)
  case None
  then show ?thesis by (simp add: dentfind_def)
next
  case (Some p)
  show ?thesis
  proof (cases "\<exists>e \<in> set ds. mkpath cwd (ent_name e) = p")
    case True
    from dentfind_loop_first[OF this, of 0] Some show ?thesis
      by (auto simp: dentfind_def)
  next
    case False
    then have "dentfind_loop ds cwd p 0 = 0" by (intro dentfind_loop_none) auto
    with Some show ?thesis by (auto simp: dentfind_def)
  qed
qed

section \<open>Repopulation\<close>

lemma populate_ok:
  "populate w s = Inr (0, s') \<Longrightarrow>
   \<exists>re ds tot. regcomp w (fltr s) = Inr re \<and> opendir w (path s) \<noteq> None
     \<and> dentfill w (path s) (visible w) re = Inr (ds, tot)
     \<and> s' = s\<lparr>dents := qsort (entrycmp (mtimeorder s)) ds, totalsize := tot,
              cur := dentfind (qsort (entrycmp (mtimeorder s)) ds) (path s) (oldpath s),
              oldpath := None\<rparr>"
  by (auto simp: populate_def setfilter_def canopendir_def Let_def
           split: if_splits sum.splits prod.splits option.splits)

lemma ex_populate:
  "populate ex_world (ex_state\<lparr>oldpath := Some ''/tmp/sub''\<rparr>) = Inr (0, ex_state\<lparr>cur := 2\<rparr>)"
  by (simp add: populate_def eval_defs ex_defs)

text \<open>
  Claim C1. When \<open>populate\<close> returns 0, the cursor is an index into the new entry list
  when the list has entries, and is 0 when the list is empty; it is the result of
  \<open>dentfind\<close> on the new list, the current path and the history slot. \<open>dentfind\<close>
  returns 0 for an absent target and when no entry's joined path equals the target,
  and otherwise the position of the first entry whose joined path equals the target.
\<close>

theorem C1_populate_cursor:
  "populate w s = Inr (0, s') \<Longrightarrow>
     (0 < dents_n s' \<longrightarrow> 0 \<le> cur s' \<and> cur s' < dents_n s')
   \<and> (dents_n s' = 0 \<longrightarrow> cur s' = 0)
   \<and> cur s' = dentfind (dents s') (path s') (oldpath s)
   \<and> dentfind ds cwd None = 0
   \<and> ((\<forall>e \<in> set ds. mkpath cwd (ent_name e) \<noteq> p) \<longrightarrow> dentfind ds cwd (Some p) = 0)
   \<and> ((\<exists>e \<in> set ds. mkpath cwd (ent_name e) = p) \<longrightarrow>
        (\<exists>k < length ds. dentfind ds cwd (Some p) = int k
           \<and> mkpath cwd (ent_name (ds ! k)) = p
           \<and> (\<forall>j < k. mkpath cwd (ent_name (ds ! j)) \<noteq> p)))"
proof -
  assume "populate w s = Inr (0, s')"
  from populate_ok[OF this] obtain re ds0 tot where
    s': "s' = s\<lparr>dents := qsort (entrycmp (mtimeorder s)) ds0, totalsize := tot,
              cur := dentfind (qsort (entrycmp (mtimeorder s)) ds0) (path s) (oldpath s),
              oldpath := None\<rparr>" by blast
  have a: "(0 < dents_n s' \<longrightarrow> 0 \<le> cur s' \<and> cur s' < dents_n s')
     \<and> (dents_n s' = 0 \<longrightarrow> cur s' = 0)
     \<and> cur s' = dentfind (dents s') (path s') (oldpath s)"
    using dentfind_range[of "qsort (entrycmp (mtimeorder s)) ds0" "path s" "oldpath s"]
    by (auto simp: s' dents_n_def)
  have b: "dentfind ds cwd None = 0" by (simp add: dentfind_def)
  have c: "(\<forall>e \<in> set ds. mkpath cwd (ent_name e) \<noteq> p) \<longrightarrow> dentfind ds cwd (Some p) = 0"
    by (simp add: dentfind_def dentfind_loop_none)
  have d: "(\<exists>e \<in> set ds. mkpath cwd (ent_name e) = p) \<longrightarrow>
        (\<exists>k < length ds. dentfind ds cwd (Some p) = int k
           \<and> mkpath cwd (ent_name (ds ! k)) = p
           \<and> (\<forall>j < k. mkpath cwd (ent_name (ds ! j)) \<noteq> p))"
    using dentfind_loop_first[of ds cwd p 0] by (simp add: dentfind_def)
  from a b c d show ?thesis by blast
qed

theorem C1_populate_cursor_witness:
  "populate ex_world (ex_state\<lparr>oldpath := Some ''/tmp/sub''\<rparr>) = Inr (0, ex_state\<lparr>cur := 2\<rparr>)
   \<and> 0 < dents_n (ex_state\<lparr>cur := 2\<rparr>)
   \<and> cur (ex_state\<lparr>cur := 2\<rparr>) < dents_n (ex_state\<lparr>cur := 2\<rparr>)
   \<and> (\<exists>e \<in> set [ex_a, ex_b, ex_sub]. mkpath ''/tmp'' (ent_name e) = ''/tmp/sub'')
   \<and> dentfind [ex_a, ex_b, ex_sub] ''/tmp'' (Some ''/tmp/sub'') = 2
   \<and> mkpath ''/tmp'' (ent_name ex_a) \<noteq> ''/tmp/gone''
   \<and> mkpath ''/tmp'' (ent_name ex_b) \<noteq> ''/tmp/gone''
   \<and> mkpath ''/tmp'' (ent_name ex_sub) \<noteq> ''/tmp/gone''
   \<and> dentfind [ex_a, ex_b, ex_sub] ''/tmp'' (Some ''/tmp/gone'') = 0"
  using C1_populate_cursor[OF ex_populate, where ds = "[ex_a, ex_b, ex_sub]"
          and cwd = "''/tmp''" and p = "''/tmp/sub''"]
        C1_populate_cursor[OF ex_populate, where ds = "[ex_a, ex_b, ex_sub]"
          and cwd = "''/tmp''" and p = "''/tmp/gone''"]
        ex_populate
  by (simp add: dents_n_def eval_defs ex_defs)

section \<open>The entry lister\<close>

lemma dentfill_loop_result:
  "dentfill_loop w dir flt re names ds tot = Inr (ds', tot') \<Longrightarrow>
   \<exists>new. ds' = ds @ new
     \<and> map ent_name new = filter (\<lambda>d. d \<noteq> ''.'' \<and> d \<noteq> ''..'' \<and> flt re d) names
     \<and> tot' = tot + sum_list (map ent_size
          (filter (\<lambda>e. filemode (ent_mode e) = CHR 0x00 \<or> filemode (ent_mode e) = CHR ''*'')
             new))"
proof (induction names arbitrary: ds tot)
  case Nil
  then show ?case by simp
next
  case (Cons d rest)
  show ?case
  proof (cases "d = ''.'' \<or> d = ''..'' \<or> \<not> flt re d")
    case True
    with Cons.prems have "dentfill_loop w dir flt re rest ds tot = Inr (ds', tot')"
      by (auto simp: strcmp_eq_0 split: if_splits)
    from Cons.IH[OF this] True show ?thesis by auto
  next
    case False
    with Cons.prems obtain sb where sb: "lstat w (mkpath dir d) = Some sb"
      by (cases "lstat w (mkpath dir d)") (auto simp: strcmp_eq_0)
    define e where
      "e = \<lparr>ent_name = d, ent_mode = st_mode sb, ent_t = st_mtime sb, ent_size = st_size sb\<rparr>"
    define tot1 where
      "tot1 = (if filemode (st_mode sb) = CHR 0x00 \<or> filemode (st_mode sb) = CHR ''*''
               then tot + st_size sb else tot)"
    from Cons.prems False sb
    have "dentfill_loop w dir flt re rest (ds @ [e]) tot1 = Inr (ds', tot')"
      by (simp add: strcmp_eq_0 e_def tot1_def)
    from Cons.IH[OF this] obtain new where new: "ds' = (ds @ [e]) @ new"
      "map ent_name new = filter (\<lambda>d. d \<noteq> ''.'' \<and> d \<noteq> ''..'' \<and> flt re d) rest"
      "tot' = tot1 + sum_list (map ent_size
          (filter (\<lambda>e. filemode (ent_mode e) = CHR 0x00 \<or> filemode (ent_mode e) = CHR ''*'')
             new))"
      by blast
    have "ds' = ds @ (e # new)" using new(1) by simp
    moreover have "map ent_name (e # new)
        = filter (\<lambda>d. d \<noteq> ''.'' \<and> d \<noteq> ''..'' \<and> flt re d) (d # rest)"
      using new(2) False by (simp add: e_def)
    moreover have "tot' = tot + sum_list (map ent_size
          (filter (\<lambda>e. filemode (ent_mode e) = CHR 0x00 \<or> filemode (ent_mode e) = CHR ''*'')
             (e # new)))"
      using new(3) by (simp add: e_def tot1_def)
    ultimately show ?thesis by blast
  qed
qed

lemma dentfill_result:
  "dentfill w dir flt re = Inr (ds, tot) \<Longrightarrow>
     map ent_name ds = filter (\<lambda>d. d \<noteq> ''.'' \<and> d \<noteq> ''..'' \<and> flt re d)
                         (case opendir w dir of None \<Rightarrow> [] | Some names \<Rightarrow> names)
   \<and> tot = sum_list (map ent_size
          (filter (\<lambda>e. filemode (ent_mode e) = CHR 0x00 \<or> filemode (ent_mode e) = CHR ''*'')
             ds))"
proof (cases "opendir w dir")
  case None
  assume "dentfill w dir flt re = Inr (ds, tot)"
  with None show ?thesis by (simp add: dentfill_def)
next
  case (Some names)
  assume "dentfill w dir flt re = Inr (ds, tot)"
  with Some have "dentfill_loop w dir flt re names [] 0 = Inr (ds, tot)"
    by (auto simp: dentfill_def split: sum.splits if_splits)
  from dentfill_loop_result[OF this] Some show ?thesis by auto
qed

lemma ex_dentfill:
  "dentfill ex_world ''/tmp'' (visible ex_world) ''^[^.]'' = Inr ([ex_b, ex_sub, ex_a], 30)"
  by (simp add: eval_defs ex_defs)

text \<open>
  Claim C4. Every entry of the list that \<open>dentfill\<close> fills under the filter \<open>visible\<close>
  with the compiled pattern \<open>re\<close> has a name that \<open>re\<close> matches, and none is \<open>.\<close> or
  \<open>..\<close>. The names of the list are the names read from the directory, in the order
  read, without \<open>.\<close>, \<open>..\<close> and the names that \<open>re\<close> does not match.
\<close>

theorem C4_dentfill_only_matching:
  "dentfill w dir (visible w) re = Inr (ds, tot) \<Longrightarrow>
     (\<forall>e \<in> set ds. regexec w re (ent_name e) \<and> ent_name e \<noteq> ''.'' \<and> ent_name e \<noteq> ''..'')
   \<and> map ent_name ds = filter (\<lambda>d. d \<noteq> ''.'' \<and> d \<noteq> ''..'' \<and> regexec w re d)
                         (case opendir w dir of None \<Rightarrow> [] | Some names \<Rightarrow> names)"
proof -
  assume a: "dentfill w dir (visible w) re = Inr (ds, tot)"
  have v: "visible w = regexec w" by (rule ext)+ (simp add: visible_def)
  from dentfill_result[OF a]
  have m: "map ent_name ds = filter (\<lambda>d. d \<noteq> ''.'' \<and> d \<noteq> ''..'' \<and> regexec w re d)
                         (case opendir w dir of None \<Rightarrow> [] | Some names \<Rightarrow> names)"
    by (simp add: v)
  have "\<forall>e \<in> set ds. regexec w re (ent_name e) \<and> ent_name e \<noteq> ''.'' \<and> ent_name e \<noteq> ''..''"
  proof
    fix e assume "e \<in> set ds"
    then have "ent_name e \<in> set (map ent_name ds)" by simp
    then show "regexec w re (ent_name e) \<and> ent_name e \<noteq> ''.'' \<and> ent_name e \<noteq> ''..''"
      unfolding m by simp
  qed
  with m show ?thesis by simp
qed

theorem C4_dentfill_only_matching_witness:
  "dentfill ex_world ''/tmp'' (visible ex_world) ''^[^.]'' = Inr ([ex_b, ex_sub, ex_a], 30)
   \<and> regexec ex_world ''^[^.]'' (ent_name ex_b)
   \<and> regexec ex_world ''^[^.]'' (ent_name ex_sub)
   \<and> regexec ex_world ''^[^.]'' (ent_name ex_a)
   \<and> map ent_name [ex_b, ex_sub, ex_a] = [''b.log'', ''sub'', ''a.txt'']"
  using C4_dentfill_only_matching[OF ex_dentfill] ex_dentfill
  by (simp add: ex_defs)

text \<open>
  Claim C8. The total that \<open>dentfill\<close> leaves in \<open>totalsize\<close> is the sum, in
  \<open>unsigned long\<close> arithmetic, of the sizes of the listed entries for which \<open>filemode\<close>
  gives 0 or \<open>*\<close>; the other entries add nothing.
\<close>

theorem C8_dentfill_totalsize:
  "dentfill w dir flt re = Inr (ds, tot) \<Longrightarrow>
     tot = sum_list (map ent_size
          (filter (\<lambda>e. filemode (ent_mode e) = CHR 0x00 \<or> filemode (ent_mode e) = CHR ''*'')
             ds))"
  by (drule dentfill_result) simp

theorem C8_dentfill_totalsize_witness:
  "dentfill ex_world ''/tmp'' (visible ex_world) ''^[^.]'' = Inr ([ex_b, ex_sub, ex_a], 30)
   \<and> (30 :: ulong) = ent_size ex_b + ent_size ex_a
   \<and> filemode (ent_mode ex_sub) = CHR ''/''
   \<and> filemode (ent_mode ex_b) = CHR ''*'' \<and> filemode (ent_mode ex_a) = CHR 0x00"
  using C8_dentfill_totalsize[OF ex_dentfill] ex_dentfill
  by (simp add: ex_defs eval_defs)

section \<open>The actions of \<open>browse\<close>\<close>

lemmas out_defs = printmsg_def printwarn_def clearprompt_def printprompt_def

lemma populate_frame:
  "populate w s = Inr (r, s') \<Longrightarrow>
     fltr s' = fltr s \<and> path s' = path s \<and> nowtyping s' = nowtyping s \<and> tmp s' = tmp s
     \<and> mtimeorder s' = mtimeorder s"
  by (auto simp: populate_def setfilter_def Let_def
           split: if_splits sum.splits prod.splits option.splits)

lemma goto_begin_frame:
  "goto_begin w s = Inr s' \<Longrightarrow>
     fltr s' = fltr s \<and> nowtyping s' = nowtyping s \<and> tmp s' = tmp s
     \<and> mtimeorder s' = mtimeorder s
     \<and> (path s' = path s \<or> path s' = strip_slashes (path s))"
  by (auto simp: goto_begin_def redraw_def printwarn_def
           split: sum.splits prod.splits if_splits dest!: populate_frame)

lemma save_current_frame:
  "save_current s = (c, s') \<Longrightarrow> fltr s' = fltr s \<and> path s' = path s \<and> dents s' = dents s
     \<and> cur s' = cur s \<and> out s' = out s \<and> nowtyping s' = nowtyping s \<and> tmp s' = tmp s
     \<and> (c = Goto_begin \<or> c = Fault)"
  by (auto simp: save_current_def split: if_splits option.splits)


lemma goto_begin_filled:
  assumes "canopendir w (path s)" "regcomp w (fltr s) = Inr re"
    "dentfill w (path s) (visible w) re = Inr (ds, tot)"
  shows "goto_begin w s
     = Inr (s\<lparr>dents := qsort (entrycmp (mtimeorder s)) ds, totalsize := tot,
              cur := dentfind (qsort (entrycmp (mtimeorder s)) ds) (path s) (oldpath s),
              oldpath := None, path := strip_slashes (path s)\<rparr>)"
  using assms by (simp add: goto_begin_def populate_def setfilter_def redraw_def Let_def)


lemmas step_defs = browse_iter_def goto_begin_def populate_def save_current_def dent_cur_def
  dents_n_def out_defs eval_defs ex_defs

subsection \<open>Cursor movement\<close>

lemma pg_nonneg: "3 \<le> L \<Longrightarrow> 0 \<le> (L - 4) sdiv (2::int)"
  by (auto simp: signed_divide_int_def sgn_if)

text \<open>
  The six movement actions leave through \<open>break\<close> and change \<open>cur\<close> only. On a list
  with entries, and a screen of three lines or more, the cursor stays inside the list;
  on an empty list every action but \<open>SEL_END\<close> leaves it at 0.
\<close>

lemma cursor_moves:
  assumes "a \<in> {SEL_NEXT, SEL_PREV, SEL_PGDN, SEL_PGUP, SEL_HOME, SEL_END}"
  shows "fst (dispatch w ifilter a s) = Break
     \<and> snd (dispatch w ifilter a s) = s\<lparr>cur := cur (snd (dispatch w ifilter a s))\<rparr>
     \<and> (0 < dents_n s \<and> 0 \<le> cur s \<and> cur s < dents_n s \<and> 3 \<le> LINES w
          \<longrightarrow> 0 \<le> cur (snd (dispatch w ifilter a s))
              \<and> cur (snd (dispatch w ifilter a s)) < dents_n s)
     \<and> (dents_n s = 0 \<and> cur s = 0 \<and> a \<noteq> SEL_END
          \<longrightarrow> cur (snd (dispatch w ifilter a s)) = 0)"
proof -
  from assms consider "a = SEL_NEXT" | "a = SEL_PREV" | "a = SEL_PGDN" | "a = SEL_PGUP"
    | "a = SEL_HOME" | "a = SEL_END" by auto
  then show ?thesis
  proof cases
    case 1 then show ?thesis by simp
  next
    case 2 then show ?thesis by simp
  next
    case 3 then show ?thesis using pg_nonneg[of "LINES w"] by (auto simp: MIN_m_def)
  next
    case 4 then show ?thesis using pg_nonneg[of "LINES w"] by (auto simp: MIN_m_def)
  next
    case 5 then show ?thesis by simp
  next
    case 6 then show ?thesis by simp
  qed
qed

text \<open>
  On a screen of two lines the page size \<open>(LINES - 4) / 2\<close> is -1, and \<open>SEL_PGDN\<close>
  moves the cursor from the first entry of \<open>/tmp\<close> to -1.
\<close>

lemma sel_pgdn_two_lines:
  "dispatch (ex_world\<lparr>LINES := 2\<rparr>) ''^[^.]'' SEL_PGDN ex_state = (Break, ex_state\<lparr>cur := -1\<rparr>)"
  by (simp add: dents_n_def MIN_m_def signed_divide_int_def ex_defs)

lemma ex_start: "browse_start ex_world False ''/tmp'' ''^[^.]'' = Inr ex_state"
  by (simp add: browse_start_def goto_begin_def populate_def eval_defs ex_defs)

lemma ex_home_start: "browse_start ex_world False ''/home'' ''^[^.]'' = Inr ex_home"
  by (simp add: browse_start_def goto_begin_def populate_def eval_defs ex_defs)

text \<open>
  Claim C2, at the input where the code leaves it. \<open>browse\<close> started in the empty
  directory \<open>/home\<close> has an empty list and the cursor 0; the action \<open>SEL_END\<close> then
  sets the cursor to -1, without repopulation.
\<close>

theorem C2_sel_end_empty_list:
  "browse_start ex_world False ''/home'' ''^[^.]'' = Inr ex_home
   \<and> dents ex_home = [] \<and> cur ex_home = 0
   \<and> dispatch ex_world ''^[^.]'' SEL_END ex_home = (Break, ex_home\<lparr>cur := -1\<rparr>)
   \<and> browse_iter ex_world ''^[^.]'' (Some SEL_END) ex_home = Next (ex_home\<lparr>cur := -1\<rparr>)"
  using ex_home_start
  by (simp add: browse_iter_def dents_n_def eval_defs ex_home_def)

subsection \<open>The active filter\<close>

lemma moretyping_fltr:
  "moretyping w ifilter s = (c, s') \<Longrightarrow> compiles w ifilter \<Longrightarrow> compiles w (fltr s) \<Longrightarrow>
     compiles w (fltr s')"
  by (auto simp: moretyping_def Let_def setfilter_def out_defs compiles_def
           split: prod.splits option.splits sum.splits if_splits dest!: save_current_frame)

lemma dispatch_fltr:
  "dispatch w ifilter a s = (c, s') \<Longrightarrow> compiles w ifilter \<Longrightarrow> compiles w ''.'' \<Longrightarrow>
     compiles w (fltr s) \<Longrightarrow> compiles w (fltr s')"
proof (cases a)
  case SEL_TYPE
  assume "dispatch w ifilter a s = (c, s')" "compiles w ifilter" "compiles w (fltr s)"
  with SEL_TYPE show ?thesis
    using moretyping_fltr[of w ifilter "s\<lparr>nowtyping := True, tmp := None\<rparr>" c s'] by simp
next
  case SEL_GOIN
  assume "dispatch w ifilter a s = (c, s')" "compiles w ifilter" "compiles w (fltr s)"
  with SEL_GOIN show ?thesis
    by (auto simp: Let_def out_defs split: if_splits option.splits)
next
  case SEL_FLTR
  assume "dispatch w ifilter a s = (c, s')" "compiles w ifilter" "compiles w (fltr s)"
  with SEL_FLTR show ?thesis
    by (auto simp: Let_def out_defs setfilter_def compiles_def
        split: if_splits option.splits sum.splits dest!: save_current_frame)
qed (auto simp: Let_def out_defs split: if_splits option.splits dest!: save_current_frame)

text \<open>
  Whatever the key, a filter that compiles is followed by a filter that compiles, when
  the default filter and \<open>.\<close> compile.
\<close>

lemma fltr_always_compiles:
  assumes "browse_iter w ifilter sel s = Next s'" "compiles w ifilter" "compiles w ''.''"
    "compiles w (fltr s)"
  shows "compiles w (fltr s')"
proof -
  obtain c s1 where d: "(if nowtyping s then moretyping w ifilter s
            else (case sel of None \<Rightarrow> (Break, s) | Some a \<Rightarrow> dispatch w ifilter a s)) = (c, s1)"
    by (cases "(if nowtyping s then moretyping w ifilter s
            else (case sel of None \<Rightarrow> (Break, s) | Some a \<Rightarrow> dispatch w ifilter a s))") auto
  have c1: "compiles w (fltr s1)"
    using d assms(2-4) moretyping_fltr[of w ifilter s c s1] dispatch_fltr[of w ifilter _ s c s1]
    by (auto split: if_splits option.splits)
  from assms(1) d have "fltr s' = fltr s1"
    by (cases c) (auto simp: browse_iter_def redraw_def split: sum.splits dest!: goto_begin_frame)
  with c1 show ?thesis by simp
qed

text \<open>
  Claim C3. Outside typing mode, with an active filter that compiles: when the string
  read at the set-filter prompt does not compile, \<open>SEL_FLTR\<close> goes to \<open>nochange\<close>
  (no repopulation) and the state is the one before, the prompt and the regex error
  added to the output: filter, entry list, cursor, path and history are unchanged.
  And for every key and state, when the default filter, \<open>.\<close> and the active filter
  compile, the active filter after the key compiles.
\<close>

theorem C3_bad_filter_rejected:
  assumes "\<not> nowtyping s" "readln w = Some f" "regcomp w f = Inl msg"
    "regcomp w (fltr s) = Inr re"
  shows "dispatch w ifilter SEL_FLTR s
           = (Goto_nochange,
              s\<lparr>out := out s @ [Printmsg [], Prompt ''filter: '', Regerror msg]\<rparr>)
       \<and> browse_iter w ifilter (Some SEL_FLTR) s
           = Next (s\<lparr>out := out s @ [Printmsg [], Prompt ''filter: '', Regerror msg]\<rparr>)
       \<and> (\<forall>sel s1 s2. compiles w ifilter \<and> compiles w ''.'' \<and> compiles w (fltr s1)
               \<and> browse_iter w ifilter sel s1 = Next s2
             \<longrightarrow> compiles w (fltr s2))"
proof -
  have a: "dispatch w ifilter SEL_FLTR s
           = (Goto_nochange,
              s\<lparr>out := out s @ [Printmsg [], Prompt ''filter: '', Regerror msg]\<rparr>)"
    using assms by (simp add: setfilter_def out_defs Let_def)
  have b: "browse_iter w ifilter (Some SEL_FLTR) s
           = Next (s\<lparr>out := out s @ [Printmsg [], Prompt ''filter: '', Regerror msg]\<rparr>)"
    using assms(1) a by (simp add: browse_iter_def del: dispatch.simps)
  have c: "\<forall>sel s1 s2. compiles w ifilter \<and> compiles w ''.'' \<and> compiles w (fltr s1)
               \<and> browse_iter w ifilter sel s1 = Next s2
             \<longrightarrow> compiles w (fltr s2)"
    using fltr_always_compiles by blast
  from a b c show ?thesis by blast
qed

theorem C3_bad_filter_rejected_witness:
  "\<not> nowtyping ex_state \<and> readln (ex_world\<lparr>readln := Some ''(''\<rparr>) = Some ''(''
   \<and> regcomp (ex_world\<lparr>readln := Some ''(''\<rparr>) ''('' = Inl ''parentheses not balanced''
   \<and> regcomp (ex_world\<lparr>readln := Some ''(''\<rparr>) (fltr ex_state) = Inr ''^[^.]''
   \<and> browse_iter (ex_world\<lparr>readln := Some ''(''\<rparr>) ''^[^.]'' (Some SEL_FLTR) ex_state
       = Next (ex_state\<lparr>out := [Printmsg [], Prompt ''filter: '',
                                   Regerror ''parentheses not balanced'']\<rparr>)"
proof -
  have h: "\<not> nowtyping ex_state" "readln (ex_world\<lparr>readln := Some ''(''\<rparr>) = Some ''(''"
    "regcomp (ex_world\<lparr>readln := Some ''(''\<rparr>) ''('' = Inl ''parentheses not balanced''"
    "regcomp (ex_world\<lparr>readln := Some ''(''\<rparr>) (fltr ex_state) = Inr ''^[^.]''"
    by (simp_all add: ex_defs)
  from C3_bad_filter_rejected[OF h, of "''^[^.]''"]
  have "browse_iter (ex_world\<lparr>readln := Some ''(''\<rparr>) ''^[^.]'' (Some SEL_FLTR) ex_state
       = Next (ex_state\<lparr>out := [Printmsg [], Prompt ''filter: '',
                                   Regerror ''parentheses not balanced'']\<rparr>)"
    by (simp add: ex_state_def)
  with h show ?thesis by simp
qed

subsection \<open>Empty input at a prompt\<close>

text \<open>
  Claim C7, as stated, fails at the set-filter prompt. In \<open>/tmp\<close> with the active filter
  \<open>.\<close> and the default filter \<open>^[^.]\<close>, empty input at the prompt replaces the active
  filter by the default filter and rebuilds the list: the prior filter is not kept.
\<close>

theorem C7_counterexample:
  "readln ex_world = None \<and> \<not> nowtyping ex_all \<and> fltr ex_all = ''.''
   \<and> browse_iter ex_world ''^[^.]'' (Some SEL_FLTR) ex_all
       = Next (ex_state\<lparr>out := [Printmsg [], Prompt ''filter: '']\<rparr>)
   \<and> fltr (ex_state\<lparr>out := [Printmsg [], Prompt ''filter: '']\<rparr>) = ''^[^.]''
   \<and> dents (ex_state\<lparr>out := [Printmsg [], Prompt ''filter: '']\<rparr>) \<noteq> dents ex_all"
  by (simp add: browse_iter_def goto_begin_def populate_def save_current_def dent_cur_def
        dents_n_def out_defs eval_defs ex_defs)

text \<open>
  Claim C7, amended. Outside typing mode, with empty input at the prompt: \<open>SEL_CD\<close>
  leaves the state as it was, the prompt and its clearing added to the output and no
  warning. \<open>SEL_FLTR\<close>, when the default filter compiles, the current directory can
  be opened and listed, and the cursor is inside the list (or the list is empty),
  returns to the loop with the default filter as the active filter, the path kept
  (\<open>redraw\<close> cuts slashes at its end), the prompt alone added to the output, the
  history slot empty, and the entry list rebuilt: the directory's entries under the
  default filter, sorted, with the cursor found from the entry it stood on.
\<close>

theorem C7_empty_input:
  assumes "\<not> nowtyping s" "readln w = None"
  shows "browse_iter w ifilter (Some SEL_CD) s
           = Next (s\<lparr>out := out s @ [Printmsg [], Prompt ''chdir: '', Printmsg []]\<rparr>)
     \<and> (\<forall>re ds tot.
          regcomp w ifilter = Inr re \<and> canopendir w (path s)
          \<and> dentfill w (path s) (visible w) re = Inr (ds, tot)
          \<and> (dents_n s = 0 \<or> dent_cur s \<noteq> None) \<longrightarrow>
          (\<exists>s'. browse_iter w ifilter (Some SEL_FLTR) s = Next s'
             \<and> fltr s' = ifilter
             \<and> path s' = strip_slashes (path s)
             \<and> out s' = out s @ [Printmsg [], Prompt ''filter: '']
             \<and> dents s' = qsort (entrycmp (mtimeorder s)) ds
             \<and> totalsize s' = tot
             \<and> oldpath s' = None
             \<and> cur s' = dentfind (dents s') (path s)
                   (case dent_cur s of None \<Rightarrow> oldpath s
                    | Some e \<Rightarrow> Some (mkpath (path s) (ent_name e)))
             \<and> mtimeorder s' = mtimeorder s \<and> nowtyping s' = nowtyping s \<and> tmp s' = tmp s))"
proof -
  have a: "browse_iter w ifilter (Some SEL_CD) s
           = Next (s\<lparr>out := out s @ [Printmsg [], Prompt ''chdir: '', Printmsg []]\<rparr>)"
    using assms by (simp add: browse_iter_def out_defs Let_def)
  have b: "\<forall>re ds tot.
          regcomp w ifilter = Inr re \<and> canopendir w (path s)
          \<and> dentfill w (path s) (visible w) re = Inr (ds, tot)
          \<and> (dents_n s = 0 \<or> dent_cur s \<noteq> None) \<longrightarrow>
          (\<exists>s'. browse_iter w ifilter (Some SEL_FLTR) s = Next s'
             \<and> fltr s' = ifilter
             \<and> path s' = strip_slashes (path s)
             \<and> out s' = out s @ [Printmsg [], Prompt ''filter: '']
             \<and> dents s' = qsort (entrycmp (mtimeorder s)) ds
             \<and> totalsize s' = tot
             \<and> oldpath s' = None
             \<and> cur s' = dentfind (dents s') (path s)
                   (case dent_cur s of None \<Rightarrow> oldpath s
                    | Some e \<Rightarrow> Some (mkpath (path s) (ent_name e)))
             \<and> mtimeorder s' = mtimeorder s \<and> nowtyping s' = nowtyping s \<and> tmp s' = tmp s)"
  proof (intro allI impI)
    fix re ds tot
    assume h: "regcomp w ifilter = Inr re \<and> canopendir w (path s)
          \<and> dentfill w (path s) (visible w) re = Inr (ds, tot)
          \<and> (dents_n s = 0 \<or> dent_cur s \<noteq> None)"
    define s1 where "s1 = s\<lparr>out := out s @ [Printmsg [], Prompt ''filter: ''], fltr := ifilter\<rparr>"
    define hist where "hist = (case dent_cur s of None \<Rightarrow> oldpath s
                    | Some e \<Rightarrow> Some (mkpath (path s) (ent_name e)))"
    have d: "dispatch w ifilter SEL_FLTR s = save_current s1"
      using assms h by (simp add: s1_def setfilter_def out_defs Let_def)
    have sc: "save_current s1 = (Goto_begin, s1\<lparr>oldpath := hist\<rparr>)"
      using h by (auto simp: save_current_def dent_cur_def dents_n_def s1_def hist_def)
    have g: "goto_begin w (s1\<lparr>oldpath := hist\<rparr>)
       = Inr (s1\<lparr>oldpath := hist, dents := qsort (entrycmp (mtimeorder s)) ds, totalsize := tot,
              cur := dentfind (qsort (entrycmp (mtimeorder s)) ds) (path s) hist,
              oldpath := None, path := strip_slashes (path s)\<rparr>)"
      using goto_begin_filled[of w "s1\<lparr>oldpath := hist\<rparr>" re ds tot] h
      by (simp add: s1_def)
    have "browse_iter w ifilter (Some SEL_FLTR) s
       = Next (s1\<lparr>oldpath := hist, dents := qsort (entrycmp (mtimeorder s)) ds, totalsize := tot,
              cur := dentfind (qsort (entrycmp (mtimeorder s)) ds) (path s) hist,
              oldpath := None, path := strip_slashes (path s)\<rparr>)"
      using assms(1) d sc g by (simp add: browse_iter_def del: dispatch.simps)
    then show "\<exists>s'. browse_iter w ifilter (Some SEL_FLTR) s = Next s'
             \<and> fltr s' = ifilter
             \<and> path s' = strip_slashes (path s)
             \<and> out s' = out s @ [Printmsg [], Prompt ''filter: '']
             \<and> dents s' = qsort (entrycmp (mtimeorder s)) ds
             \<and> totalsize s' = tot
             \<and> oldpath s' = None
             \<and> cur s' = dentfind (dents s') (path s)
                   (case dent_cur s of None \<Rightarrow> oldpath s
                    | Some e \<Rightarrow> Some (mkpath (path s) (ent_name e)))
             \<and> mtimeorder s' = mtimeorder s \<and> nowtyping s' = nowtyping s \<and> tmp s' = tmp s"
      by (simp add: s1_def hist_def)
  qed
  from a b show ?thesis by blast
qed

theorem C7_empty_input_witness:
  "\<not> nowtyping ex_all \<and> readln ex_world = None
   \<and> browse_iter ex_world ''^[^.]'' (Some SEL_CD) ex_all
       = Next (ex_all\<lparr>out := [Printmsg [], Prompt ''chdir: '', Printmsg []]\<rparr>)
   \<and> regcomp ex_world ''^[^.]'' = Inr ''^[^.]'' \<and> canopendir ex_world (path ex_all)
   \<and> dentfill ex_world (path ex_all) (visible ex_world) ''^[^.]'' = Inr ([ex_b, ex_sub, ex_a], 30)
   \<and> dent_cur ex_all = Some ex_hidden
   \<and> browse_iter ex_world ''^[^.]'' (Some SEL_FLTR) ex_all
       = Next (ex_state\<lparr>out := [Printmsg [], Prompt ''filter: '']\<rparr>)"
proof -
  have h: "\<not> nowtyping ex_all" "readln ex_world = None" by (simp_all add: ex_defs)
  have k: "regcomp ex_world ''^[^.]'' = Inr ''^[^.]'' \<and> canopendir ex_world (path ex_all)
     \<and> dentfill ex_world (path ex_all) (visible ex_world) ''^[^.]'' = Inr ([ex_b, ex_sub, ex_a], 30)
     \<and> (dents_n ex_all = 0 \<or> dent_cur ex_all \<noteq> None)"
    by (simp add: dent_cur_def dents_n_def eval_defs ex_defs)
  have dc: "dent_cur ex_all = Some ex_hidden" by (simp add: dent_cur_def dents_n_def ex_defs)
  note t = C7_empty_input[OF h, of "''^[^.]''"]
  from t[THEN conjunct2, rule_format, OF k] obtain s' where
    s': "browse_iter ex_world ''^[^.]'' (Some SEL_FLTR) ex_all = Next s'"
    "fltr s' = ''^[^.]''" "path s' = strip_slashes (path ex_all)"
    "out s' = out ex_all @ [Printmsg [], Prompt ''filter: '']"
    "dents s' = qsort (entrycmp (mtimeorder ex_all)) [ex_b, ex_sub, ex_a]"
    "totalsize s' = 30" "oldpath s' = None"
    "cur s' = dentfind (dents s') (path ex_all)
                   (case dent_cur ex_all of None \<Rightarrow> oldpath ex_all
                    | Some e \<Rightarrow> Some (mkpath (path ex_all) (ent_name e)))"
    "mtimeorder s' = mtimeorder ex_all" "nowtyping s' = nowtyping ex_all" "tmp s' = tmp ex_all"
    by blast
  have "s' = ex_state\<lparr>out := [Printmsg [], Prompt ''filter: '']\<rparr>"
    using s'(2-) dc by (intro state.equality) (simp_all add: eval_defs ex_defs)
  moreover have "out ex_all = []" by (simp add: ex_all_def)
  ultimately show ?thesis using s'(1) t[THEN conjunct1] h k dc by simp
qed

subsection \<open>The history slot\<close>

lemma ex_stale_reached:
  "browse_iter ex_world ''^[^.]'' (Some SEL_NEXT) ex_state = Next (ex_state\<lparr>cur := 1\<rparr>)
   \<and> browse_iter ex_locked ''^[^.]'' (Some SEL_REDRAW) (ex_state\<lparr>cur := 1\<rparr>) = Next ex_stale"
  by (simp add: step_defs)









section \<open>The order of the entry list\<close>






text \<open>
  Outside that range the \<open>int\<close> loses the sign of the difference: an entry of time 0
  compares as newer than an entry of time \<open>2^31\<close>.
\<close>

lemma entrycmp_mtime_wraps:
  "entrycmp True \<lparr>ent_name = ''old'', ent_mode = 0x81A4, ent_t = 0, ent_size = 0\<rparr>
                 \<lparr>ent_name = ''new'', ent_mode = 0x81A4, ent_t = 0x80000000, ent_size = 0\<rparr> < 0"
  by (simp add: entrycmp_def)








section \<open>Paths\<close>














section \<open>Descending and ascending\<close>





end
